theory Spec2Isabelle
  imports Main "HOL-Library.Sublist" "HOL-Library.Multiset"
begin

section \<open>Python values used by \<^verbatim>\<open>reddit_api.py\<close>\<close>

text \<open>
  A string is the list of the bytes of its UTF-8 encoding. \<^verbatim>\<open>str.lower()\<close> is a
  builtin whose case tables lie outside the repository, so lowering is a parameter
  \<open>lower\<close> of every function that lowers a string; nothing is assumed about it.
\<close>

text \<open>
  \<^verbatim>\<open>keyword in text\<close> on two strings holds when \<^verbatim>\<open>keyword\<close> occurs in \<^verbatim>\<open>text\<close> as a
  contiguous run of characters, which is \<^const>\<open>sublist\<close>.
  \<^verbatim>\<open>any(keyword in text for keyword in keywords)\<close> tries the keywords in turn.
\<close>

definition any_keyword :: "string list \<Rightarrow> string \<Rightarrow> bool" where
  "any_keyword keywords text = list_ex (\<lambda>keyword. sublist keyword text) keywords"

text \<open>
  The slice \<^verbatim>\<open>xs[:n]\<close> for an integer \<^verbatim>\<open>n\<close>: the first \<^verbatim>\<open>n\<close> elements when \<^verbatim>\<open>n\<close> is
  not negative, and all but the last \<^verbatim>\<open>-n\<close> elements when it is.
\<close>

definition py_slice_to :: "int \<Rightarrow> 'a list \<Rightarrow> 'a list" where
  "py_slice_to n xs =
     (if 0 \<le> n then take (nat n) xs else take (length xs - nat (- n)) xs)"

text \<open>
  \<^verbatim>\<open>sorted(xs, key=key, reverse=True)\<close>: CPython reverses the list, sorts it stably in
  ascending order of the key and reverses the outcome, so that elements of equal key keep
  the order they had in \<^verbatim>\<open>xs\<close>. \<^const>\<open>sort_key\<close> is a stable ascending sort.
\<close>

definition py_sorted_reverse :: "('a \<Rightarrow> int) \<Rightarrow> 'a list \<Rightarrow> 'a list" where
  "py_sorted_reverse key xs = rev (sort_key key (rev xs))"

text \<open>
  \<^verbatim>\<open>list(set(xs))\<close> holds every element of \<^verbatim>\<open>xs\<close> once, in the iteration order of the
  set. Python does not fix that order (string hashes change from one process to the
  next), so the order is a parameter \<open>set_order\<close> of the model: a function that permutes
  the list it is given.
\<close>

definition iteration_order :: "('a list \<Rightarrow> 'a list) \<Rightarrow> bool" where
  "iteration_order set_order = (\<forall>xs. mset (set_order xs) = mset xs)"

definition py_list_set :: "('a list \<Rightarrow> 'a list) \<Rightarrow> 'a list \<Rightarrow> 'a list" where
  "py_list_set set_order xs = set_order (remdups xs)"

text \<open>
  An error raised by the Reddit client. The classes of \<^verbatim>\<open>praw\<close> and \<^verbatim>\<open>prawcore\<close>
  all derive from \<^verbatim>\<open>Exception\<close>, which is what both handlers catch; the string is the
  message that \<^verbatim>\<open>str(e)\<close> gives.
\<close>

datatype exn = Exception string

text \<open>
  Standard output: \<^verbatim>\<open>print(text)\<close> either writes the text or raises (the stream cannot
  encode a character of it, or is closed). The stream takes a given text in the same way
  throughout a run. The third argument of \<open>py_print\<close> is what has been printed so far.
\<close>

type_synonym stdout = "string \<Rightarrow> exn option"

definition py_print :: "stdout \<Rightarrow> string \<Rightarrow> string list \<Rightarrow> exn + string list" where
  "py_print out text printed =
     (case out text of Some e \<Rightarrow> Inl e | None \<Rightarrow> Inr (printed @ [text]))"

text \<open>Several \<^verbatim>\<open>print\<close> statements in a row.\<close>

fun py_prints :: "stdout \<Rightarrow> string list \<Rightarrow> string list \<Rightarrow> exn + string list" where
  "py_prints out [] printed = Inr printed"
| "py_prints out (text # texts) printed =
     (case py_print out text printed of
        Inl e \<Rightarrow> Inl e
      | Inr printed' \<Rightarrow> py_prints out texts printed')"

text \<open>The decimal digits of a length or an index, as an f-string writes them.\<close>

fun str_nat :: "nat \<Rightarrow> string" where
  "str_nat n =
     (if n < 10 then [char_of (48 + n)]
      else str_nat (n div 10) @ [char_of (48 + n mod 10)])"

declare str_nat.simps [simp del]

section \<open>Data\<close>

text \<open>
  A track dictionary as the Spotify step hands it over. Only the keys that
  \<^verbatim>\<open>get_reddit_recommendations\<close> reads are kept.
\<close>

record track =
  t_name :: string
  t_artists :: "string list"
  t_artist_names :: string
  t_popularity :: int

text \<open>A comment and a submission as the client exposes them (the attributes read).\<close>

record raw_comment =
  c_body :: string
  c_score :: int
  c_author :: "string option"

text \<open>
  The flattened comment list \<^verbatim>\<open>post.comments.list()\<close> is a list of comment objects.
  Reading the attributes of one of them either gives its values or raises.
\<close>

type_synonym comment_item = "exn + raw_comment"

text \<open>
  \<open>p_comments\<close> is the outcome of \<^verbatim>\<open>post.comments.replace_more(limit=0)\<close> followed
  by \<^verbatim>\<open>post.comments.list()\<close>: an error when either call raises, the list otherwise.
\<close>

record raw_post =
  p_title :: string
  p_selftext :: string
  p_score :: int
  p_permalink :: string
  p_comments :: "exn + comment_item list"

text \<open>
  Iterating over the search results yields one item per step: a submission whose
  attributes can be read, or an error (the listing raises while fetching, or reading the
  submission raises). An error ends the iteration.
\<close>

type_synonym post_item = "exn + raw_post"

text \<open>
  A subreddit handle is its \<^verbatim>\<open>search(query, limit=max_posts)\<close> method, and the client
  is its \<^verbatim>\<open>subreddit(name)\<close> method. Both may raise. The service answers a given
  request in the same way throughout a run.
\<close>

type_synonym subreddit = "string \<Rightarrow> int \<Rightarrow> exn + post_item list"

type_synonym reddit = "string \<Rightarrow> exn + subreddit"

text \<open>The dictionaries built by \<^verbatim>\<open>search_reddit_for_recommendations\<close>.\<close>

record comment_data =
  cd_body :: string
  cd_score :: int
  cd_author :: string

record post_data =
  pd_title :: string
  pd_body :: string
  pd_score :: int
  pd_url :: string
  pd_comments :: "comment_data list"

text \<open>The dictionary returned by \<^verbatim>\<open>get_reddit_recommendations\<close>.\<close>

record reddit_result =
  all_reddit_data :: "post_data list"
  top_tracks :: "track list"
  all_artists :: "string list"

section \<open>\<^verbatim>\<open>search_reddit_for_recommendations\<close>\<close>

definition post_keywords :: "string list" where
  "post_keywords =
     [''recommend'', ''similar'', ''if you like'', ''check out'', ''you might like'', ''fans of'']"

definition comment_keywords :: "string list" where
  "comment_keywords =
     [''recommend'', ''similar'', ''if you like'', ''check out'', ''you might like'', ''try'']"

definition strong_keywords :: "string list" where
  "strong_keywords = [''recommend'', ''similar'']"

text \<open>\<^verbatim>\<open>text = f"{post.title} {post.selftext}".lower()\<close>\<close>

definition post_text :: "(string \<Rightarrow> string) \<Rightarrow> raw_post \<Rightarrow> string" where
  "post_text lower post = lower (p_title post @ '' '' @ p_selftext post)"

text \<open>The dictionary appended for one retained comment.\<close>

definition comment_entry :: "raw_comment \<Rightarrow> comment_data" where
  "comment_entry comment =
     \<lparr>cd_body = c_body comment,
      cd_score = c_score comment,
      cd_author = (case c_author comment of Some a \<Rightarrow> a | None \<Rightarrow> ''[deleted]'')\<rparr>"

text \<open>
  The loop over the sliced comment list, inside the inner \<^verbatim>\<open>try\<close>. The last argument
  is \<^verbatim>\<open>post_data['comments']\<close> as built so far. When a comment raises, control leaves the
  loop for \<^verbatim>\<open>except Exception: pass\<close> and the list stays as it is at that moment.
\<close>

fun for_comments ::
  "(string \<Rightarrow> string) \<Rightarrow> comment_item list \<Rightarrow> comment_data list \<Rightarrow> comment_data list" where
  "for_comments lower [] comments = comments"
| "for_comments lower (Inl e # rest) comments = comments"
| "for_comments lower (Inr comment # rest) comments =
     (if any_keyword comment_keywords (lower (c_body comment))
      then for_comments lower rest (comments @ [comment_entry comment])
      else for_comments lower rest comments)"

text \<open>The inner \<^verbatim>\<open>try\<close> block: the value of \<^verbatim>\<open>post_data['comments']\<close> after it.\<close>

definition get_comments :: "(string \<Rightarrow> string) \<Rightarrow> int \<Rightarrow> raw_post \<Rightarrow> comment_data list" where
  "get_comments lower max_comments post =
     (case p_comments post of
        Inl e \<Rightarrow> []
      | Inr listed \<Rightarrow> for_comments lower (py_slice_to max_comments listed) [])"

definition post_entry :: "raw_post \<Rightarrow> comment_data list \<Rightarrow> post_data" where
  "post_entry post comments =
     \<lparr>pd_title = p_title post,
      pd_body = p_selftext post,
      pd_score = p_score post,
      pd_url = ''https://reddit.com'' @ p_permalink post,
      pd_comments = comments\<rparr>"

text \<open>
  The body of the loop over the search results for one submission; it takes and gives
  back the list \<^verbatim>\<open>recommendations\<close>.
\<close>

definition mine_candidate ::
  "(string \<Rightarrow> string) \<Rightarrow> int \<Rightarrow> raw_post \<Rightarrow> post_data list \<Rightarrow> post_data list" where
  "mine_candidate lower max_comments post recommendations =
     (let comments = get_comments lower max_comments post in
      if comments \<noteq> [] \<or> any_keyword strong_keywords (post_text lower post)
      then recommendations @ [post_entry post comments]
      else recommendations)"

definition process_post ::
  "(string \<Rightarrow> string) \<Rightarrow> int \<Rightarrow> raw_post \<Rightarrow> post_data list \<Rightarrow> post_data list" where
  "process_post lower max_comments post recommendations =
     (if any_keyword post_keywords (post_text lower post)
      then mine_candidate lower max_comments post recommendations
      else recommendations)"

text \<open>
  The loop over the search results inside the outer \<^verbatim>\<open>try\<close>. It ends when the results
  are used up or when an item raises; the result is \<^verbatim>\<open>recommendations\<close> at that moment
  and the error caught by the handler, if any.
\<close>

fun for_posts ::
  "(string \<Rightarrow> string) \<Rightarrow> int \<Rightarrow> post_item list \<Rightarrow> post_data list
     \<Rightarrow> post_data list \<times> exn option" where
  "for_posts lower max_comments [] recommendations = (recommendations, None)"
| "for_posts lower max_comments (Inl e # rest) recommendations = (recommendations, Some e)"
| "for_posts lower max_comments (Inr post # rest) recommendations =
     for_posts lower max_comments rest (process_post lower max_comments post recommendations)"

text \<open>\<^verbatim>\<open>f"   Error searching Reddit: {e}"\<close>\<close>

definition error_line :: "exn \<Rightarrow> string" where
  "error_line e = (case e of Exception msg \<Rightarrow> ''   Error searching Reddit: '' @ msg)"

text \<open>
  The whole function; it returns \<^verbatim>\<open>recommendations\<close>, and the model adds the lines it
  printed. Two calls are outside the \<^verbatim>\<open>try\<close>, so an error they raise reaches the
  caller (\<open>Inl\<close>): \<^verbatim>\<open>reddit.subreddit(subreddit_name)\<close> before it, and the \<^verbatim>\<open>print\<close>
  inside the handler.
\<close>

definition search_reddit_for_recommendations ::
  "stdout \<Rightarrow> (string \<Rightarrow> string) \<Rightarrow> reddit \<Rightarrow> string \<Rightarrow> string \<Rightarrow> int \<Rightarrow> int
     \<Rightarrow> exn + (post_data list \<times> string list)" where
  "search_reddit_for_recommendations out lower reddit query subreddit_name max_posts max_comments =
     (case reddit subreddit_name of
        Inl e \<Rightarrow> Inl e
      | Inr subreddit \<Rightarrow>
          (case (case subreddit query max_posts of
                   Inl e \<Rightarrow> ([], Some e)
                 | Inr search_results \<Rightarrow> for_posts lower max_comments search_results [])
           of (recommendations, None) \<Rightarrow> Inr (recommendations, [])
            | (recommendations, Some e) \<Rightarrow>
                (case py_print out (error_line e) [] of
                   Inl e' \<Rightarrow> Inl e'
                 | Inr printed \<Rightarrow> Inr (recommendations, printed))))"

section \<open>\<^verbatim>\<open>get_reddit_recommendations\<close>\<close>

definition top_tracks_of :: "track list \<Rightarrow> int \<Rightarrow> track list" where
  "top_tracks_of tracks_data num_top_tracks =
     py_slice_to num_top_tracks (py_sorted_reverse t_popularity tracks_data)"

definition all_artists_of ::
  "(string list \<Rightarrow> string list) \<Rightarrow> track list \<Rightarrow> int \<Rightarrow> string list" where
  "all_artists_of set_order tracks_data num_top_artists =
     py_slice_to num_top_artists
       (py_list_set set_order (concat (map t_artists tracks_data)))"

definition track_query :: "track \<Rightarrow> string" where
  "track_query track = t_name track @ '' '' @ t_artist_names track @ '' recommend''"

definition artist_query :: "string \<Rightarrow> string" where
  "artist_query artist = artist @ '' recommend similar''"

text \<open>
  The lines printed. \<open>banner\<close> is \<^verbatim>\<open>"=" * 80\<close>; a line break inside a text is the
  byte 10, a single quote the byte 39, and the two symbols of the track loop are their
  UTF-8 bytes.
\<close>

definition banner :: string where
  "banner = replicate 80 (CHR ''='')"

definition track_heading :: "nat \<Rightarrow> nat \<times> track \<Rightarrow> string" where
  "track_heading len item =
     ''['' @ str_nat (fst item) @ ''/'' @ str_nat len @ ''] Searching: '' @
     [CHR 0x27] @ t_name (snd item) @ [CHR 0x27]"

definition artist_heading :: "nat \<Rightarrow> nat \<times> string \<Rightarrow> string" where
  "artist_heading len item =
     ''[Artist '' @ str_nat (fst item) @ ''/'' @ str_nat len @ ''] Searching: '' @
     [CHR 0x27] @ snd item @ [CHR 0x27]"

definition track_found :: "nat \<Rightarrow> string" where
  "track_found n =
     ''         '' @ [CHR 0xE2, CHR 0x9C, CHR 0x85] @ '' Found '' @ str_nat n @
     '' recommendation posts/threads''"

definition track_nothing :: string where
  "track_nothing =
     ''         '' @ [CHR 0xE2, CHR 0x84, CHR 0xB9, CHR 0xEF, CHR 0xB8, CHR 0x8F] @
     ''  No recommendations found''"

definition artist_found :: "nat \<Rightarrow> string" where
  "artist_found n = ''         Found '' @ str_nat n @ '' recommendation posts/threads''"

definition artist_nothing :: string where
  "artist_nothing = ''         No recommendations found''"

text \<open>
  The two loops have the same shape and differ in the texts they print. An item of
  \<open>searches\<close> is the heading printed for it and its query; the state is
  \<^verbatim>\<open>all_reddit_data\<close> and what has been printed. For each item: the heading is printed,
  the search is run, its results are appended when there are any, and one of two lines
  is printed. An error raised by a \<^verbatim>\<open>print\<close> or by the search ends the run.
\<close>

fun for_queries ::
  "stdout \<Rightarrow> (string \<Rightarrow> string) \<Rightarrow> reddit \<Rightarrow> string \<Rightarrow> int \<Rightarrow> int \<Rightarrow> (nat \<Rightarrow> string) \<Rightarrow> string
     \<Rightarrow> (string \<times> string) list \<Rightarrow> post_data list \<times> string list
     \<Rightarrow> exn + (post_data list \<times> string list)" where
  "for_queries out lower reddit subreddit_name max_posts max_comments found nothing [] state =
     Inr state"
| "for_queries out lower reddit subreddit_name max_posts max_comments found nothing
     ((heading, query) # rest) (data, printed) =
     (case py_print out heading printed of
        Inl e \<Rightarrow> Inl e
      | Inr printed1 \<Rightarrow>
          (case search_reddit_for_recommendations out lower reddit query subreddit_name
                  max_posts max_comments of
             Inl e \<Rightarrow> Inl e
           | Inr (results, lines) \<Rightarrow>
               if results \<noteq> []
               then (case py_print out (found (length results)) (printed1 @ lines) of
                       Inl e \<Rightarrow> Inl e
                     | Inr printed2 \<Rightarrow>
                         for_queries out lower reddit subreddit_name max_posts max_comments
                           found nothing rest (data @ results, printed2))
               else (case py_print out nothing (printed1 @ lines) of
                       Inl e \<Rightarrow> Inl e
                     | Inr printed2 \<Rightarrow>
                         for_queries out lower reddit subreddit_name max_posts max_comments
                           found nothing rest (data, printed2))))"

text \<open>
  The whole function: the returned dictionary, and the lines printed.
  \<^verbatim>\<open>enumerate(xs, 1)\<close> is \<^term>\<open>enumerate 1 xs\<close>.
\<close>

definition get_reddit_recommendations ::
  "stdout \<Rightarrow> (string \<Rightarrow> string) \<Rightarrow> reddit \<Rightarrow> (string list \<Rightarrow> string list) \<Rightarrow> track list \<Rightarrow> string
     \<Rightarrow> int \<Rightarrow> int \<Rightarrow> int \<Rightarrow> int \<Rightarrow> exn + (reddit_result \<times> string list)" where
  "get_reddit_recommendations out lower reddit set_order tracks_data subreddit_name
       max_reddit_posts_per_query max_comments_per_post num_top_tracks num_top_artists =
     (case py_prints out [banner, ''SEARCHING REDDIT FOR RECOMMENDATIONS'', banner] [] of
        Inl e \<Rightarrow> Inl e
      | Inr printed1 \<Rightarrow>
         (let tops = top_tracks_of tracks_data num_top_tracks;
              artists = all_artists_of set_order tracks_data num_top_artists
          in case py_prints out
                    [CHR 0x0A # ''Searching for recommendations based on:'',
                     ''   - Top '' @ str_nat (length tops) @ '' tracks'',
                     ''   - Top '' @ str_nat (length artists) @ '' artists'',
                     []] printed1 of
               Inl e \<Rightarrow> Inl e
             | Inr printed2 \<Rightarrow>
                (case for_queries out lower reddit subreddit_name max_reddit_posts_per_query
                        max_comments_per_post track_found track_nothing
                        (map (\<lambda>item. (track_heading (length tops) item, track_query (snd item)))
                           (enumerate 1 tops))
                        ([], printed2) of
                   Inl e \<Rightarrow> Inl e
                 | Inr (by_track, printed3) \<Rightarrow>
                    (case for_queries out lower reddit subreddit_name max_reddit_posts_per_query
                            max_comments_per_post artist_found artist_nothing
                            (map (\<lambda>item. (artist_heading (length artists) item,
                                           artist_query (snd item)))
                               (enumerate 1 artists))
                            (by_track, printed3) of
                       Inl e \<Rightarrow> Inl e
                     | Inr (all_data, printed4) \<Rightarrow>
                        (case py_prints out
                                [CHR 0x0A # ''Total Reddit data collected: '' @
                                   str_nat (length all_data) @ '' posts with recommendations'',
                                 ''   Total comments: '' @
                                   str_nat (sum_list (map (\<lambda>post. length (pd_comments post))
                                                         all_data))]
                                printed4 of
                           Inl e \<Rightarrow> Inl e
                         | Inr printed5 \<Rightarrow>
                             Inr (\<lparr>all_reddit_data = all_data, top_tracks = tops,
                                   all_artists = artists\<rparr>, printed5))))))"

section \<open>Vocabulary for the properties\<close>

text \<open>
  The items an iteration goes through before the first error: the submissions mined by
  the loop over the search results, the comments read by the loop over the comments.
\<close>

fun before_error :: "(exn + 'a) list \<Rightarrow> 'a list" where
  "before_error [] = []"
| "before_error (Inl e # rest) = []"
| "before_error (Inr x # rest) = x # before_error rest"

text \<open>The first error of an iteration, if it has one.\<close>

fun first_error :: "(exn + 'a) list \<Rightarrow> exn option" where
  "first_error [] = None"
| "first_error (Inl e # rest) = Some e"
| "first_error (Inr x # rest) = first_error rest"

text \<open>
  The two lexicons written out term by term, as the design document lists them. They
  are compared with the keyword lists of the code in \<open>any_post_keyword\<close> and
  \<open>any_comment_keyword\<close>.
\<close>

definition has_post_intent :: "string \<Rightarrow> bool" where
  "has_post_intent text =
     (sublist ''recommend'' text \<or> sublist ''similar'' text \<or> sublist ''if you like'' text \<or>
      sublist ''check out'' text \<or> sublist ''you might like'' text \<or> sublist ''fans of'' text)"

definition has_comment_intent :: "string \<Rightarrow> bool" where
  "has_comment_intent text =
     (sublist ''recommend'' text \<or> sublist ''similar'' text \<or> sublist ''if you like'' text \<or>
      sublist ''check out'' text \<or> sublist ''you might like'' text \<or> sublist ''try'' text)"

text \<open>
  The lowered title and body of a returned dictionary, joined as the code joins those
  of the submission it was built from.
\<close>

definition entry_text :: "(string \<Rightarrow> string) \<Rightarrow> post_data \<Rightarrow> string" where
  "entry_text lower entry = lower (pd_title entry @ '' '' @ pd_body entry)"

text \<open>The list one query contributes: what the search returns for it.\<close>

definition query_results ::
  "stdout \<Rightarrow> (string \<Rightarrow> string) \<Rightarrow> reddit \<Rightarrow> string \<Rightarrow> int \<Rightarrow> int \<Rightarrow> string \<Rightarrow> post_data list" where
  "query_results out lower reddit subreddit_name max_posts max_comments query =
     (case search_reddit_for_recommendations out lower reddit query subreddit_name
             max_posts max_comments of
        Inl e \<Rightarrow> []
      | Inr (results, printed) \<Rightarrow> results)"

section \<open>Example data\<close>

text \<open>
  The strings of the examples are ASCII, where \<^verbatim>\<open>str.lower()\<close> changes the letters
  \<^verbatim>\<open>A\<close> to \<^verbatim>\<open>Z\<close> and nothing else. One output stream takes every text, one
  cannot encode the bytes above 127, and one is closed.
\<close>

definition ex_lower_char :: "char \<Rightarrow> char" where
  "ex_lower_char c =
     (let n = (of_char c :: nat) in if 65 \<le> n \<and> n \<le> 90 then char_of (n + 32) else c)"

definition ex_lower :: "string \<Rightarrow> string" where
  "ex_lower s = map ex_lower_char s"

definition ex_stdout :: stdout where
  "ex_stdout text = None"

definition ex_ascii_stdout :: stdout where
  "ex_ascii_stdout text =
     (if list_all (\<lambda>c. (of_char c :: nat) < 128) text then None
      else Some (Exception ''UnicodeEncodeError''))"

definition ex_closed_stdout :: stdout where
  "ex_closed_stdout text = Some (Exception ''I/O operation on closed file'')"

text \<open>
  A playlist of three tracks, two of them of equal popularity, and a small subreddit.
  The search for the artist \<^verbatim>\<open>Cy\<close> fails, the search for the track \<^verbatim>\<open>Beta\<close> gives two
  submissions, and every other search gives a submission whose second comment cannot
  be read and then breaks off. Looking up the subreddit \<^verbatim>\<open>random\<close> fails.
\<close>

definition ex_track_a :: track where
  "ex_track_a = \<lparr>t_name = ''Alpha'', t_artists = [''Ann''], t_artist_names = ''Ann'', t_popularity = 50\<rparr>"

definition ex_track_b :: track where
  "ex_track_b = \<lparr>t_name = ''Beta'', t_artists = [''Bob'', ''Ann''], t_artist_names = ''Bob, Ann'', t_popularity = 80\<rparr>"

definition ex_track_c :: track where
  "ex_track_c = \<lparr>t_name = ''Gamma'', t_artists = [''Cy''], t_artist_names = ''Cy'', t_popularity = 50\<rparr>"

definition ex_tracks :: "track list" where
  "ex_tracks = [ex_track_a, ex_track_b, ex_track_c]"

definition ex_comment_good :: raw_comment where
  "ex_comment_good = \<lparr>c_body = ''You should TRY Low'', c_score = 12, c_author = Some ''alice''\<rparr>"

definition ex_comment_plain :: raw_comment where
  "ex_comment_plain = \<lparr>c_body = ''Great album'', c_score = 3, c_author = None\<rparr>"

definition ex_post_strong :: raw_post where
  "ex_post_strong =
     \<lparr>p_title = ''Recommend me something'', p_selftext = ''like Bowie'', p_score = 10,
      p_permalink = ''/r/music/1'', p_comments = Inr [Inr ex_comment_plain]\<rparr>"

definition ex_post_weak :: raw_post where
  "ex_post_weak =
     \<lparr>p_title = ''Check out this band'', p_selftext = [], p_score = 4,
      p_permalink = ''/r/music/2'', p_comments = Inr [Inr ex_comment_plain]\<rparr>"

definition ex_post_plain :: raw_post where
  "ex_post_plain =
     \<lparr>p_title = ''New album out'', p_selftext = ''today'', p_score = 7,
      p_permalink = ''/r/music/3'', p_comments = Inr [Inr ex_comment_good]\<rparr>"

definition ex_post_partial :: raw_post where
  "ex_post_partial =
     \<lparr>p_title = ''Fans of Bowie'', p_selftext = ''what next'', p_score = 5,
      p_permalink = ''/r/music/4'',
      p_comments = Inr [Inr ex_comment_good, Inl (Exception ''timeout''), Inr ex_comment_good]\<rparr>"

definition ex_post_three :: raw_post where
  "ex_post_three =
     \<lparr>p_title = ''If you like Bowie'', p_selftext = [], p_score = 2,
      p_permalink = ''/r/music/5'',
      p_comments = Inr [Inr ex_comment_good, Inr ex_comment_good, Inr ex_comment_plain]\<rparr>"

definition ex_subreddit :: subreddit where
  "ex_subreddit query max_posts =
     (if query = ''Cy recommend similar'' then Inl (Exception ''503'')
      else if query = ''Beta Bob, Ann recommend'' then Inr [Inr ex_post_strong, Inr ex_post_weak]
      else Inr [Inr ex_post_partial, Inl (Exception ''timeout''), Inr ex_post_strong])"

definition ex_reddit :: reddit where
  "ex_reddit subreddit_name =
     (if subreddit_name = ''random'' then Inl (Exception ''no redirect'') else Inr ex_subreddit)"

section \<open>Sorting, slicing and keyword lists\<close>

lemma py_sorted_reverse_mset: "mset (py_sorted_reverse key xs) = mset xs"
  by (simp add: py_sorted_reverse_def)

lemma py_sorted_reverse_sorted:
  "sorted_wrt (\<lambda>a b. key a \<ge> key b) (py_sorted_reverse key xs)"
proof -
  have "sorted (map key (sort_key key (rev xs)))" by (rule sorted_sort_key)
  then have "sorted_wrt (\<lambda>a b. key a \<le> key b) (sort_key key (rev xs))"
    by (simp add: sorted_wrt_map)
  then show ?thesis
    by (simp add: py_sorted_reverse_def sorted_wrt_rev)
qed

lemma py_sorted_reverse_stable:
  "filter (\<lambda>x. key x = k) (py_sorted_reverse key xs) = filter (\<lambda>x. key x = k) xs"
  by (simp add: py_sorted_reverse_def rev_filter[symmetric] sort_key_stable)

text \<open>
  Permutation, descending order and stability determine the outcome: there is one
  stable descending sort of a list.
\<close>

lemma stable_descending_unique:
  assumes "mset ys = mset xs"
    and "sorted_wrt (\<lambda>a b. key a \<ge> key b) ys"
    and "\<And>k. filter (\<lambda>x. key x = k) ys = filter (\<lambda>x. key x = k) xs"
  shows "ys = py_sorted_reverse key xs"
proof -
  have "sorted_wrt (\<lambda>a b. key a \<le> key b) (rev ys)"
    using assms(2) by (simp add: sorted_wrt_rev)
  then have s: "sorted (map key (rev ys))"
    by (simp add: sorted_wrt_map)
  have f: "filter (\<lambda>x. key k = key x) (rev ys) = filter (\<lambda>x. key k = key x) (rev xs)" for k
  proof -
    have "(\<lambda>x. key k = key x) = (\<lambda>x. key x = key k)" by auto
    then show ?thesis using assms(3)[of "key k"] by (simp add: rev_filter[symmetric])
  qed
  have "sort_key key (rev xs) = rev ys"
    by (rule properties_for_sort_key) (use assms(1) s f in simp_all)
  then show ?thesis by (simp add: py_sorted_reverse_def)
qed

lemma py_slice_to_nonneg: "0 \<le> n \<Longrightarrow> py_slice_to n xs = take (nat n) xs"
  by (simp add: py_slice_to_def)

lemma py_slice_to_take: "\<exists>k. py_slice_to n xs = take k xs"
  by (auto simp: py_slice_to_def)

lemma py_slice_to_all: "int (length xs) \<le> n \<Longrightarrow> py_slice_to n xs = xs"
  by (simp add: py_slice_to_def)

lemma mset_take_subseteq: "mset (take k xs) \<subseteq># mset xs"
proof -
  have "mset xs = mset (take k xs) + mset (drop k xs)"
    by (metis append_take_drop_id mset_append)
  then show ?thesis by simp
qed

lemma any_post_keyword: "any_keyword post_keywords text = has_post_intent text"
  by (simp add: any_keyword_def post_keywords_def has_post_intent_def)

lemma any_comment_keyword: "any_keyword comment_keywords text = has_comment_intent text"
  by (simp add: any_keyword_def comment_keywords_def has_comment_intent_def)



lemma before_error_append: "before_error (map Inr xs @ rest) = xs @ before_error rest"
  by (induction xs) simp_all

lemma length_before_error: "length (before_error items) \<le> length items"
  by (induction items rule: before_error.induct) simp_all

lemma length_py_slice_to:
  "length (py_slice_to n xs) =
     (if 0 \<le> n then min (nat n) (length xs) else length xs - nat (- n))"
  by (simp add: py_slice_to_def min.commute)

lemma strict_sub_multiset_iff_size:
  assumes "A \<subseteq># B"
  shows "A \<subset># B \<longleftrightarrow> size A < size B"
proof
  assume "A \<subset># B"
  then show "size A < size B" by (rule mset_subset_size)
next
  assume "size A < size B"
  then have "A \<noteq> B" by auto
  with assms show "A \<subset># B" by (simp add: subset_mset.less_le)
qed

section \<open>The loop over the comments\<close>


lemma for_comments_acc:
  "for_comments lower items comments = comments @ for_comments lower items []"
proof (induction items arbitrary: comments)
  case Nil
  show ?case by simp
next
  case (Cons item rest)
  show ?case
  proof (cases item)
    case (Inl e)
    then show ?thesis by simp
  next
    case (Inr comment)
    show ?thesis
      using Cons.IH[of "comments @ [comment_entry comment]"] Cons.IH[of "[comment_entry comment]"]
        Cons.IH[of comments]
      by (simp add: Inr)
  qed
qed

lemma for_comments_filter:
  "for_comments lower items [] =
     map comment_entry
       (filter (\<lambda>c. any_keyword comment_keywords (lower (c_body c))) (before_error items))"
proof (induction items rule: before_error.induct)
  case (3 x rest)
  show ?case
  proof (cases "any_keyword comment_keywords (lower (c_body x))")
    case True
    then have "for_comments lower (Inr x # rest) [] = for_comments lower rest [comment_entry x]"
      by simp
    also have "\<dots> = [comment_entry x] @ for_comments lower rest []" by (rule for_comments_acc)
    finally show ?thesis using True 3 by simp
  next
    case False
    then show ?thesis using 3 by simp
  qed
qed simp_all

lemma get_comments_fetch_error:
  "p_comments post = Inl e \<Longrightarrow> get_comments lower mc post = []"
  by (simp add: get_comments_def)

lemma get_comments_listed:
  "p_comments post = Inr listed \<Longrightarrow>
   get_comments lower mc post =
     map comment_entry
       (filter (\<lambda>c. any_keyword comment_keywords (lower (c_body c)))
          (before_error (py_slice_to mc listed)))"
  by (simp add: get_comments_def for_comments_filter)

section \<open>The loop over the search results\<close>

lemma process_post_acc:
  "process_post lower mc post recs = recs @ process_post lower mc post []"
  by (simp add: process_post_def mine_candidate_def Let_def)

lemma process_post_gate:
  "process_post lower mc post [] =
     (if has_post_intent (post_text lower post) then mine_candidate lower mc post [] else [])"
  by (simp add: process_post_def any_post_keyword)


lemma for_posts_acc:
  "fst (for_posts lower mc items recs) = recs @ fst (for_posts lower mc items [])"
proof (induction items arbitrary: recs)
  case Nil
  show ?case by simp
next
  case (Cons item rest)
  show ?case
  proof (cases item)
    case (Inl e)
    then show ?thesis by simp
  next
    case (Inr post)
    have "fst (for_posts lower mc (Inr post # rest) recs)
            = process_post lower mc post recs @ fst (for_posts lower mc rest [])"
      using Cons.IH[of "process_post lower mc post recs"] by simp
    also have "\<dots> = recs @ process_post lower mc post [] @ fst (for_posts lower mc rest [])"
      using process_post_acc[of lower mc post recs] by simp
    also have "process_post lower mc post [] @ fst (for_posts lower mc rest [])
            = fst (for_posts lower mc (Inr post # rest) [])"
      using Cons.IH[of "process_post lower mc post []"] by simp
    finally show ?thesis by (simp add: Inr)
  qed
qed

lemma snd_for_posts: "snd (for_posts lower mc items recs) = first_error items"
proof (induction items arbitrary: recs)
  case Nil
  show ?case by simp
next
  case (Cons item rest)
  show ?case
  proof (cases item)
    case (Inl e)
    then show ?thesis by simp
  next
    case (Inr post)
    show ?thesis
      using Cons.IH[of "process_post lower mc post recs"] by (simp add: Inr)
  qed
qed

lemma for_posts_concat:
  "fst (for_posts lower mc items []) =
     concat (map (\<lambda>p. process_post lower mc p []) (before_error items))"
proof (induction items rule: before_error.induct)
  case (3 x rest)
  have "fst (for_posts lower mc (Inr x # rest) [])
          = process_post lower mc x [] @ fst (for_posts lower mc rest [])"
    using for_posts_acc[of lower mc rest "process_post lower mc x []"] by simp
  then show ?case using 3 by simp
qed simp_all

text \<open>
  The loop over the search results as a whole: every submission before the first error
  goes through the loop body, and the first error, if any, is the one caught.
\<close>

lemma for_posts_exact:
  "for_posts lower mc items [] =
     (concat (map (\<lambda>p. process_post lower mc p []) (before_error items)), first_error items)"
  by (simp add: prod_eq_iff for_posts_concat snd_for_posts)

lemma mined_posts_filter:
  "concat (map (\<lambda>p. process_post lower mc p []) posts) =
     concat (map (\<lambda>p. mine_candidate lower mc p [])
               (filter (\<lambda>p. has_post_intent (post_text lower p)) posts))"
  by (induction posts) (simp_all add: process_post_gate)

lemma entry_text_post_entry: "entry_text lower (post_entry post comments) = post_text lower post"
  by (simp add: entry_text_def post_entry_def post_text_def)

lemma process_post_entries:
  "entry \<in> set (process_post lower mc post []) \<Longrightarrow> has_post_intent (entry_text lower entry)"
  by (auto simp: process_post_def mine_candidate_def Let_def any_post_keyword
      entry_text_post_entry split: if_splits)

lemma mined_posts_entries:
  "entry \<in> set (concat (map (\<lambda>p. process_post lower mc p []) posts)) \<Longrightarrow>
   has_post_intent (entry_text lower entry)"
  by (auto dest: process_post_entries)

text \<open>
  The search function, once the subreddit has been looked up: what the outer
  \<^verbatim>\<open>try\<close> leaves behind, and then the handler.
\<close>

lemma search_clean:
  assumes "reddit sub = Inr h" and "h q mp = Inr items" and "first_error items = None"
  shows "search_reddit_for_recommendations out lower reddit q sub mp mc =
           Inr (concat (map (\<lambda>p. process_post lower mc p []) (before_error items)), [])"
  using assms by (simp add: search_reddit_for_recommendations_def for_posts_exact)

lemma search_call_failed:
  assumes "reddit sub = Inr h" and "h q mp = Inl e" and "out (error_line e) = None"
  shows "search_reddit_for_recommendations out lower reddit q sub mp mc =
           Inr ([], [error_line e])"
  using assms by (simp add: search_reddit_for_recommendations_def py_print_def)

lemma search_iteration_failed:
  assumes "reddit sub = Inr h" and "h q mp = Inr items" and "first_error items = Some e"
    and "out (error_line e) = None"
  shows "search_reddit_for_recommendations out lower reddit q sub mp mc =
           Inr (concat (map (\<lambda>p. process_post lower mc p []) (before_error items)),
                [error_line e])"
  using assms
  by (simp add: search_reddit_for_recommendations_def for_posts_exact py_print_def)

lemma search_print_failed:
  assumes "reddit sub = Inr h"
    and "h q mp = Inl e \<or> (\<exists>items. h q mp = Inr items \<and> first_error items = Some e)"
    and "out (error_line e) = Some e'"
  shows "search_reddit_for_recommendations out lower reddit q sub mp mc = Inl e'"
  using assms
  by (auto simp: search_reddit_for_recommendations_def for_posts_exact py_print_def)

lemma search_returned:
  assumes "search_reddit_for_recommendations out lower reddit q sub mp mc = Inr (results, printed)"
    and "reddit sub = Inr h" and "h q mp = Inr items"
  shows "results = concat (map (\<lambda>p. process_post lower mc p []) (before_error items))"
proof (cases "first_error items")
  case None
  then show ?thesis using assms search_clean[of reddit sub h q mp items out lower mc] by simp
next
  case (Some e)
  show ?thesis
  proof (cases "out (error_line e)")
    case None
    then show ?thesis
      using assms Some search_iteration_failed[of reddit sub h q mp items e out lower mc] by simp
  next
    case inner: (Some e')
    have "search_reddit_for_recommendations out lower reddit q sub mp mc = Inl e'"
      using search_print_failed[of reddit sub h q mp e out e' lower mc] assms Some inner by blast
    with assms(1) show ?thesis by simp
  qed
qed

lemma search_returns:
  assumes "reddit sub = Inr h" and "\<forall>e. out (error_line e) = None"
  shows "\<exists>results printed.
           search_reddit_for_recommendations out lower reddit q sub mp mc = Inr (results, printed)"
proof (cases "h q mp")
  case (Inl e)
  have "out (error_line e) = None" using assms(2) by simp
  then show ?thesis
    using search_call_failed[of reddit sub h q mp e out lower mc] assms(1) Inl by simp
next
  case (Inr items)
  show ?thesis
  proof (cases "first_error items")
    case None
    then show ?thesis
      using search_clean[of reddit sub h q mp items out lower mc] assms(1) Inr by simp
  next
    case (Some e)
    have "out (error_line e) = None" using assms(2) by simp
    then show ?thesis
      using search_iteration_failed[of reddit sub h q mp items e out lower mc] assms(1) Inr Some
      by simp
  qed
qed

lemma search_lookup_failed:
  "reddit sub = Inl e \<Longrightarrow>
   search_reddit_for_recommendations out lower reddit q sub mp mc = Inl e"
  by (simp add: search_reddit_for_recommendations_def)

lemma search_entries:
  assumes "search_reddit_for_recommendations out lower reddit q sub mp mc = Inr (results, printed)"
    and "entry \<in> set results"
  shows "has_post_intent (entry_text lower entry)"
proof (cases "reddit sub")
  case (Inl e)
  with assms(1) show ?thesis by (simp add: search_reddit_for_recommendations_def)
next
  case (Inr h)
  show ?thesis
  proof (cases "h q mp")
    case (Inl e)
    have "results = []"
      using assms(1) Inr Inl
      by (auto simp: search_reddit_for_recommendations_def py_print_def split: option.splits)
    with assms(2) show ?thesis by simp
  next
    case inner: (Inr items)
    have "results = concat (map (\<lambda>p. process_post lower mc p []) (before_error items))"
      using search_returned[OF assms(1), of h items] Inr inner by simp
    with assms(2) show ?thesis using mined_posts_entries by blast
  qed
qed

section \<open>Printing\<close>

lemma py_print_accepts: "out text = None \<Longrightarrow> py_print out text printed = Inr (printed @ [text])"
  by (simp add: py_print_def)

lemma py_prints_accepts:
  "\<forall>text. out text = None \<Longrightarrow> py_prints out texts printed = Inr (printed @ texts)"
  by (induction texts arbitrary: printed) (simp_all add: py_print_accepts)

section \<open>The loops over the queries\<close>

lemma for_queries_returned:
  "for_queries out lower reddit sub mp mc found nothing searches (data, printed)
     = Inr (data', printed') \<Longrightarrow>
   data' = data @ concat (map (\<lambda>s. query_results out lower reddit sub mp mc (snd s)) searches)"
proof (induction searches arbitrary: data printed)
  case Nil
  then show ?case by simp
next
  case (Cons s searches)
  obtain heading query where s: "s = (heading, query)" by (cases s)
  obtain printed1 where p1: "py_print out heading printed = Inr printed1"
    using Cons.prems by (auto simp: s split: sum.splits)
  obtain results lines where
    r: "search_reddit_for_recommendations out lower reddit query sub mp mc = Inr (results, lines)"
    using Cons.prems p1 by (auto simp: s split: sum.splits)
  have qr: "query_results out lower reddit sub mp mc query = results"
    by (simp add: query_results_def r)
  show ?case
  proof (cases "results = []")
    case True
    obtain printed2 where p2: "py_print out nothing (printed1 @ lines) = Inr printed2"
      using Cons.prems p1 r True by (auto simp: s split: sum.splits)
    have "for_queries out lower reddit sub mp mc found nothing searches (data, printed2)
            = Inr (data', printed')"
      using Cons.prems p1 r True p2 by (simp add: s)
    from Cons.IH[OF this] show ?thesis using qr True by (simp add: s)
  next
    case False
    obtain printed2 where
      p2: "py_print out (found (length results)) (printed1 @ lines) = Inr printed2"
      using Cons.prems p1 r False by (auto simp: s split: sum.splits)
    have "for_queries out lower reddit sub mp mc found nothing searches (data @ results, printed2)
            = Inr (data', printed')"
      using Cons.prems p1 r False p2 by (simp add: s)
    from Cons.IH[OF this] show ?thesis using qr by (simp add: s)
  qed
qed

lemma for_queries_returns:
  assumes "reddit sub = Inr h" and "\<forall>text. out text = None"
  shows "\<exists>printed'.
           for_queries out lower reddit sub mp mc found nothing searches (data, printed)
             = Inr (data @ concat (map (\<lambda>s. query_results out lower reddit sub mp mc (snd s))
                                     searches), printed')"
proof (induction searches arbitrary: data printed)
  case Nil
  show ?case by simp
next
  case (Cons s searches)
  obtain heading query where s: "s = (heading, query)" by (cases s)
  have p1: "py_print out heading printed = Inr (printed @ [heading])"
    using assms(2) by (simp add: py_print_accepts)
  obtain results lines where
    r: "search_reddit_for_recommendations out lower reddit query sub mp mc = Inr (results, lines)"
    using search_returns[of reddit sub h out lower query mp mc] assms by blast
  have qr: "query_results out lower reddit sub mp mc query = results"
    by (simp add: query_results_def r)
  show ?case
  proof (cases "results = []")
    case True
    have "for_queries out lower reddit sub mp mc found nothing (s # searches) (data, printed) =
          for_queries out lower reddit sub mp mc found nothing searches
            (data, (printed @ [heading]) @ lines @ [nothing])"
      using p1 r True assms(2) by (simp add: s py_print_accepts)
    then show ?thesis
      using Cons.IH[of data "(printed @ [heading]) @ lines @ [nothing]"] qr True by (simp add: s)
  next
    case False
    have "for_queries out lower reddit sub mp mc found nothing (s # searches) (data, printed) =
          for_queries out lower reddit sub mp mc found nothing searches
            (data @ results, (printed @ [heading]) @ lines @ [found (length results)])"
      using p1 r False assms(2) by (simp add: s py_print_accepts)
    then show ?thesis
      using Cons.IH[of "data @ results" "(printed @ [heading]) @ lines @ [found (length results)]"]
        qr by (simp add: s)
  qed
qed

lemma searches_queries:
  "map (\<lambda>s. f (snd s)) (map (\<lambda>item. (g item, query (snd item))) (enumerate n xs))
     = map (\<lambda>x. f (query x)) xs"
proof -
  have "map (\<lambda>x. f (query x)) xs = map (\<lambda>x. f (query x)) (map snd (enumerate n xs))"
    by (simp only: map_snd_enumerate)
  also have "\<dots> = map (\<lambda>s. f (query (snd s))) (enumerate n xs)"
    by (simp only: map_map comp_def)
  finally show ?thesis by (simp add: comp_def)
qed

lemma get_reddit_recommendations_returned:
  assumes "get_reddit_recommendations out lower reddit set_order tracks_data sub mp mc ntt nta
             = Inr (r, printed)"
  shows "top_tracks r = top_tracks_of tracks_data ntt"
    and "all_artists r = all_artists_of set_order tracks_data nta"
    and "all_reddit_data r =
           concat (map (\<lambda>track. query_results out lower reddit sub mp mc (track_query track))
                     (top_tracks r)) @
           concat (map (\<lambda>artist. query_results out lower reddit sub mp mc (artist_query artist))
                     (all_artists r))"
proof -
  let ?tops = "top_tracks_of tracks_data ntt"
  let ?arts = "all_artists_of set_order tracks_data nta"
  let ?ts = "map (\<lambda>item. (track_heading (length ?tops) item, track_query (snd item)))
               (enumerate 1 ?tops)"
  let ?as = "map (\<lambda>item. (artist_heading (length ?arts) item, artist_query (snd item)))
               (enumerate 1 ?arts)"
  obtain printed2 d1 printed3 d2 printed4 where
    t: "for_queries out lower reddit sub mp mc track_found track_nothing ?ts ([], printed2)
          = Inr (d1, printed3)"
    and a: "for_queries out lower reddit sub mp mc artist_found artist_nothing ?as (d1, printed3)
          = Inr (d2, printed4)"
    and r: "r = \<lparr>all_reddit_data = d2, top_tracks = ?tops, all_artists = ?arts\<rparr>"
    using assms
    by (auto simp: get_reddit_recommendations_def Let_def split: sum.splits prod.splits)
  show "top_tracks r = ?tops" and "all_artists r = ?arts" by (simp_all add: r)
  have "d1 = concat (map (\<lambda>track. query_results out lower reddit sub mp mc (track_query track)) ?tops)"
    using for_queries_returned[OF t]
      searches_queries[of "query_results out lower reddit sub mp mc"
        "track_heading (length ?tops)" track_query 1 ?tops]
    by simp
  moreover have "d2 = d1 @
      concat (map (\<lambda>artist. query_results out lower reddit sub mp mc (artist_query artist)) ?arts)"
    using for_queries_returned[OF a]
      searches_queries[of "query_results out lower reddit sub mp mc"
        "artist_heading (length ?arts)" artist_query 1 ?arts]
    by simp
  ultimately show "all_reddit_data r =
           concat (map (\<lambda>track. query_results out lower reddit sub mp mc (track_query track))
                     (top_tracks r)) @
           concat (map (\<lambda>artist. query_results out lower reddit sub mp mc (artist_query artist))
                     (all_artists r))"
    by (simp add: r)
qed

lemma get_reddit_recommendations_returns:
  assumes "reddit sub = Inr h" and "\<forall>text. out text = None"
  shows "\<exists>r printed.
           get_reddit_recommendations out lower reddit set_order tracks_data sub mp mc ntt nta
             = Inr (r, printed)"
proof -
  let ?tops = "top_tracks_of tracks_data ntt"
  let ?arts = "all_artists_of set_order tracks_data nta"
  let ?ts = "map (\<lambda>item. (track_heading (length ?tops) item, track_query (snd item)))
               (enumerate 1 ?tops)"
  let ?as = "map (\<lambda>item. (artist_heading (length ?arts) item, artist_query (snd item)))
               (enumerate 1 ?arts)"
  have p: "py_prints out texts printed = Inr (printed @ texts)" for texts printed
    using assms(2) by (rule py_prints_accepts)
  obtain d1 printed3 where
    t: "for_queries out lower reddit sub mp mc track_found track_nothing ?ts
          ([], [banner, ''SEARCHING REDDIT FOR RECOMMENDATIONS'', banner] @
               [CHR 0x0A # ''Searching for recommendations based on:'',
                ''   - Top '' @ str_nat (length ?tops) @ '' tracks'',
                ''   - Top '' @ str_nat (length ?arts) @ '' artists'', []])
          = Inr (d1, printed3)"
    using for_queries_returns[of reddit sub h out lower mp mc track_found track_nothing ?ts "[]"]
      assms by blast
  obtain d2 printed4 where
    a: "for_queries out lower reddit sub mp mc artist_found artist_nothing ?as (d1, printed3)
          = Inr (d2, printed4)"
    using for_queries_returns[of reddit sub h out lower mp mc artist_found artist_nothing ?as d1]
      assms by blast
  show ?thesis
    using t a by (simp add: get_reddit_recommendations_def Let_def p del: py_prints.simps)
qed

text \<open>
  On an output stream that cannot encode the symbols of the track loop, the run of the
  example ends with the error raised by \<^verbatim>\<open>print\<close>.
\<close>

lemma ex_run_cannot_encode:
  "get_reddit_recommendations ex_ascii_stdout ex_lower ex_reddit rev ex_tracks ''music''
     20 30 2 1 = Inl (Exception ''UnicodeEncodeError'')"
  by code_simp

lemma ex_top_two: "top_tracks_of ex_tracks 2 = [ex_track_b, ex_track_a]"
  by code_simp

section \<open>The properties\<close>

subsection \<open>Seed tracks\<close>

text \<open>
  C1. For every list of tracks and every non-negative \<^verbatim>\<open>num_top_tracks\<close>, the seed
  tracks are the first \<^verbatim>\<open>num_top_tracks\<close> elements of the tracks sorted by descending
  popularity, where tracks of equal popularity keep their playlist order: the ranked
  list is a permutation of the input, is in descending order of popularity, and for
  every popularity value holds the tracks of that value in the order of the input. There
  are at most \<^verbatim>\<open>num_top_tracks\<close> seeds.
\<close>

theorem top_tracks_sorted_stable_truncated:
  assumes "0 \<le> num_top_tracks"
  shows "\<exists>ranked.
           top_tracks_of tracks_data num_top_tracks = take (nat num_top_tracks) ranked \<and>
           mset ranked = mset tracks_data \<and>
           sorted_wrt (\<lambda>a b. t_popularity a \<ge> t_popularity b) ranked \<and>
           (\<forall>k. filter (\<lambda>t. t_popularity t = k) ranked
                  = filter (\<lambda>t. t_popularity t = k) tracks_data) \<and>
           length (top_tracks_of tracks_data num_top_tracks) \<le> nat num_top_tracks"
proof -
  let ?ranked = "py_sorted_reverse t_popularity tracks_data"
  have "top_tracks_of tracks_data num_top_tracks = take (nat num_top_tracks) ?ranked"
    using assms by (simp add: top_tracks_of_def py_slice_to_nonneg)
  moreover have "mset ?ranked = mset tracks_data"
    by (rule py_sorted_reverse_mset)
  moreover have "sorted_wrt (\<lambda>a b. t_popularity a \<ge> t_popularity b) ?ranked"
    by (rule py_sorted_reverse_sorted)
  moreover have "\<forall>k. filter (\<lambda>t. t_popularity t = k) ?ranked
                   = filter (\<lambda>t. t_popularity t = k) tracks_data"
    by (simp add: py_sorted_reverse_stable)
  moreover have "length (top_tracks_of tracks_data num_top_tracks) \<le> nat num_top_tracks"
    using assms by (simp add: top_tracks_of_def py_slice_to_nonneg)
  ultimately show ?thesis by blast
qed

text \<open>
  C1, on the example playlist with two seeds: \<^verbatim>\<open>Beta\<close> (80) comes first, and of the
  two tracks of popularity 50 the earlier one, \<^verbatim>\<open>Alpha\<close>, is taken.
\<close>

theorem top_tracks_sorted_stable_truncated_witness:
  "(0::int) \<le> 2 \<and>
   top_tracks_of ex_tracks 2 = [ex_track_b, ex_track_a] \<and>
   (\<exists>ranked.
      top_tracks_of ex_tracks 2 = take (nat 2) ranked \<and>
      mset ranked = mset ex_tracks \<and>
      sorted_wrt (\<lambda>a b. t_popularity a \<ge> t_popularity b) ranked \<and>
      (\<forall>k. filter (\<lambda>t. t_popularity t = k) ranked = filter (\<lambda>t. t_popularity t = k) ex_tracks) \<and>
      length (top_tracks_of ex_tracks 2) \<le> nat 2)"
  using top_tracks_sorted_stable_truncated[of 2 ex_tracks] ex_top_two by simp

text \<open>
  C6, as amended. For every playlist and every value of \<^verbatim>\<open>num_top_tracks\<close>, negative
  ones included, the seed tracks are tracks of the playlist, none taken more often than
  the playlist has it. They leave out at least one track of the playlist exactly when
  the playlist is not empty and \<^verbatim>\<open>num_top_tracks\<close> is less than the number of its
  tracks; otherwise they are all the tracks of the playlist.
\<close>

theorem top_tracks_sub_multiset:
  "mset (top_tracks_of tracks_data num_top_tracks) \<subseteq># mset tracks_data \<and>
   (mset (top_tracks_of tracks_data num_top_tracks) \<subset># mset tracks_data
      \<longleftrightarrow> num_top_tracks < int (length tracks_data) \<and> tracks_data \<noteq> [])"
proof -
  let ?ranked = "py_sorted_reverse t_popularity tracks_data"
  let ?tops = "top_tracks_of tracks_data num_top_tracks"
  obtain k where k: "?tops = take k ?ranked"
    using py_slice_to_take[of num_top_tracks ?ranked] by (auto simp: top_tracks_of_def)
  have "mset (take k ?ranked) \<subseteq># mset ?ranked" by (rule mset_take_subseteq)
  then have sub: "mset ?tops \<subseteq># mset tracks_data"
    by (simp add: k py_sorted_reverse_mset)
  have len: "length ?ranked = length tracks_data"
    by (simp add: py_sorted_reverse_def)
  have "length ?tops =
          (if 0 \<le> num_top_tracks then min (nat num_top_tracks) (length tracks_data)
           else length tracks_data - nat (- num_top_tracks))"
    using length_py_slice_to[of num_top_tracks ?ranked] len by (simp add: top_tracks_of_def)
  then have "length ?tops < length tracks_data
               \<longleftrightarrow> num_top_tracks < int (length tracks_data) \<and> tracks_data \<noteq> []"
    by (cases "0 \<le> num_top_tracks") auto
  moreover have "mset ?tops \<subset># mset tracks_data \<longleftrightarrow> size (mset ?tops) < size (mset tracks_data)"
    using sub by (rule strict_sub_multiset_iff_size)
  ultimately show ?thesis using sub by simp
qed

text \<open>
  C6 as amended, on the example playlist with two seeds (one track is left out) and on
  a playlist of two tracks with the default of five seeds (none is).
\<close>

theorem top_tracks_sub_multiset_witness:
  "mset (top_tracks_of ex_tracks 2) \<subseteq># mset ex_tracks \<and>
   mset (top_tracks_of ex_tracks 2) \<subset># mset ex_tracks \<and>
   mset (top_tracks_of [ex_track_a, ex_track_b] 5) \<subseteq># mset [ex_track_a, ex_track_b] \<and>
   \<not> mset (top_tracks_of [ex_track_a, ex_track_b] 5) \<subset># mset [ex_track_a, ex_track_b]"
  using top_tracks_sub_multiset[of ex_tracks 2]
    top_tracks_sub_multiset[of "[ex_track_a, ex_track_b]" 5]
  by (simp add: ex_tracks_def)

text \<open>
  C6 as stated (the seed list is a strict subset of the playlist, whatever
  \<^verbatim>\<open>num_top_tracks\<close> is) fails on the playlist of two tracks: both are seeds.
\<close>

theorem top_tracks_strict_subset_counterexample:
  "\<not> set (top_tracks_of [ex_track_a, ex_track_b] 5) \<subset> set [ex_track_a, ex_track_b] \<and>
   \<not> mset (top_tracks_of [ex_track_a, ex_track_b] 5) \<subset># mset [ex_track_a, ex_track_b]"
proof -
  have "top_tracks_of [ex_track_a, ex_track_b] 5 = [ex_track_b, ex_track_a]"
    by code_simp
  then show ?thesis by (auto simp: add.commute)
qed

subsection \<open>Seed artists\<close>

text \<open>
  C7. For every list of tracks, every non-negative \<^verbatim>\<open>num_top_artists\<close> and every
  iteration order of the set, the seed artists hold no name twice, every one of them is
  an artist name of some track, there are at most \<^verbatim>\<open>num_top_artists\<close> of them, and
  when \<^verbatim>\<open>num_top_artists\<close> is at least the number of distinct artist names they are
  exactly those names.
\<close>

theorem all_artists_distinct_names_bounded:
  assumes "iteration_order set_order" and "0 \<le> num_top_artists"
  shows "distinct (all_artists_of set_order tracks_data num_top_artists) \<and>
         set (all_artists_of set_order tracks_data num_top_artists)
           \<subseteq> (\<Union>track \<in> set tracks_data. set (t_artists track)) \<and>
         length (all_artists_of set_order tracks_data num_top_artists) \<le> nat num_top_artists \<and>
         (int (card (\<Union>track \<in> set tracks_data. set (t_artists track))) \<le> num_top_artists \<longrightarrow>
            set (all_artists_of set_order tracks_data num_top_artists)
              = (\<Union>track \<in> set tracks_data. set (t_artists track)))"
proof -
  let ?names = "concat (map t_artists tracks_data)"
  let ?all = "py_list_set set_order ?names"
  let ?N = "\<Union>track \<in> set tracks_data. set (t_artists track)"
  have m: "mset ?all = mset (remdups ?names)"
    using assms(1) by (simp add: iteration_order_def py_list_set_def)
  have d: "distinct ?all"
    using m mset_eq_imp_distinct_iff[OF m] by simp
  have s: "set ?all = ?N"
    using mset_eq_setD[OF m] by simp
  have c: "length ?all = card ?N"
    using d s distinct_card[of ?all] by simp
  have a: "all_artists_of set_order tracks_data num_top_artists = take (nat num_top_artists) ?all"
    using assms(2) by (simp add: all_artists_of_def py_slice_to_nonneg)
  have "distinct (take (nat num_top_artists) ?all)" using d by (rule distinct_take)
  moreover have "set (take (nat num_top_artists) ?all) \<subseteq> ?N"
    using set_take_subset[of "nat num_top_artists" ?all] s by simp
  moreover have "length (take (nat num_top_artists) ?all) \<le> nat num_top_artists" by simp
  moreover have "int (card ?N) \<le> num_top_artists \<Longrightarrow> set (take (nat num_top_artists) ?all) = ?N"
    using c s by simp
  ultimately show ?thesis unfolding a by blast
qed

text \<open>C7, on the example playlist with a set that iterates in reverse order.\<close>

theorem all_artists_distinct_names_bounded_witness:
  "iteration_order (rev :: string list \<Rightarrow> string list) \<and> (0::int) \<le> 3 \<and>
   all_artists_of rev ex_tracks 3 = [''Cy'', ''Ann'', ''Bob''] \<and>
   distinct (all_artists_of rev ex_tracks 3) \<and>
   set (all_artists_of rev ex_tracks 3) \<subseteq> (\<Union>track \<in> set ex_tracks. set (t_artists track)) \<and>
   length (all_artists_of rev ex_tracks 3) \<le> nat 3 \<and>
   set (all_artists_of rev ex_tracks 3) = (\<Union>track \<in> set ex_tracks. set (t_artists track))"
proof -
  have o: "iteration_order (rev :: string list \<Rightarrow> string list)"
    by (simp add: iteration_order_def)
  have v: "all_artists_of rev ex_tracks 3 = [''Cy'', ''Ann'', ''Bob'']"
    by code_simp
  have c: "int (card (\<Union>track \<in> set ex_tracks. set (t_artists track))) \<le> 3"
    by (simp add: ex_tracks_def ex_track_a_def ex_track_b_def ex_track_c_def card_insert_if)
  show ?thesis
    using all_artists_distinct_names_bounded[OF o, of 3 ex_tracks] o v c by simp
qed

subsection \<open>Which submissions are returned\<close>



text \<open>
  C3. Of the submissions fetched for a query (those the iteration yields before it
  ends or raises), the ones mined are exactly those whose lowered title and body, joined
  by a space, contain one of \<^verbatim>\<open>recommend\<close>, \<^verbatim>\<open>similar\<close>, \<^verbatim>\<open>if you like\<close>,
  \<^verbatim>\<open>check out\<close>, \<^verbatim>\<open>you might like\<close>, \<^verbatim>\<open>fans of\<close>: the returned list is what
  mining these submissions, one after the other and each of them, gives, and the other
  submissions add nothing to it. The search returns this list whenever the handler can
  print; every entry of a returned list has one of the terms in its text; and the loop
  body decides by this test alone whether a submission is mined.
\<close>

theorem post_intent_gate:
  assumes "reddit subreddit_name = Inr subreddit"
    and "subreddit query max_posts = Inr search_results"
  shows "((\<forall>e. out (error_line e) = None) \<longrightarrow>
            (\<exists>printed.
               search_reddit_for_recommendations out lower reddit query subreddit_name
                 max_posts max_comments =
               Inr (concat (map (\<lambda>post. mine_candidate lower max_comments post [])
                              (filter (\<lambda>post. has_post_intent (post_text lower post))
                                 (before_error search_results))), printed))) \<and>
         (\<forall>results printed.
            search_reddit_for_recommendations out lower reddit query subreddit_name
              max_posts max_comments = Inr (results, printed) \<longrightarrow>
            results = concat (map (\<lambda>post. mine_candidate lower max_comments post [])
                                (filter (\<lambda>post. has_post_intent (post_text lower post))
                                   (before_error search_results))) \<and>
            (\<forall>entry \<in> set results. has_post_intent (entry_text lower entry))) \<and>
         (\<forall>post recommendations.
            process_post lower max_comments post recommendations =
              (if has_post_intent (post_text lower post)
               then mine_candidate lower max_comments post recommendations
               else recommendations))"
proof -
  let ?mined = "concat (map (\<lambda>post. mine_candidate lower max_comments post [])
                          (filter (\<lambda>post. has_post_intent (post_text lower post))
                             (before_error search_results)))"
  have returned: "results = ?mined \<and> (\<forall>entry \<in> set results. has_post_intent (entry_text lower entry))"
    if r: "search_reddit_for_recommendations out lower reddit query subreddit_name
              max_posts max_comments = Inr (results, printed)" for results printed
  proof -
    have "results = concat (map (\<lambda>p. process_post lower max_comments p [])
                             (before_error search_results))"
      using search_returned[OF r, of subreddit search_results] assms by simp
    then have "results = ?mined" by (simp add: mined_posts_filter)
    moreover have "\<forall>entry \<in> set results. has_post_intent (entry_text lower entry)"
      using search_entries[OF r] by blast
    ultimately show ?thesis by simp
  qed
  have "\<exists>printed.
          search_reddit_for_recommendations out lower reddit query subreddit_name
            max_posts max_comments = Inr (?mined, printed)"
    if accepted: "\<forall>e. out (error_line e) = None"
  proof -
    obtain results printed where r:
      "search_reddit_for_recommendations out lower reddit query subreddit_name
         max_posts max_comments = Inr (results, printed)"
      using search_returns[of reddit subreddit_name subreddit out lower query max_posts max_comments]
        assms(1) accepted by blast
    then show ?thesis using returned[OF r] by auto
  qed
  moreover have "process_post lower max_comments post recommendations =
              (if has_post_intent (post_text lower post)
               then mine_candidate lower max_comments post recommendations
               else recommendations)" for post recommendations
    by (simp add: process_post_def any_post_keyword)
  ultimately show ?thesis using returned by blast
qed

text \<open>
  C3, on the query of the track \<^verbatim>\<open>Beta\<close>, whose two submissions both pass the test,
  and on a submission without any of the terms.
\<close>

theorem post_intent_gate_witness:
  "ex_reddit ''music'' = Inr ex_subreddit \<and>
   ex_subreddit ''Beta Bob, Ann recommend'' 20 = Inr [Inr ex_post_strong, Inr ex_post_weak] \<and>
   search_reddit_for_recommendations ex_stdout ex_lower ex_reddit ''Beta Bob, Ann recommend''
     ''music'' 20 30 = Inr ([post_entry ex_post_strong []], []) \<and>
   [post_entry ex_post_strong []] =
     concat (map (\<lambda>post. mine_candidate ex_lower 30 post [])
               (filter (\<lambda>post. has_post_intent (post_text ex_lower post))
                  (before_error [Inr ex_post_strong, Inr ex_post_weak]))) \<and>
   has_post_intent (entry_text ex_lower (post_entry ex_post_strong [])) \<and>
   \<not> has_post_intent (post_text ex_lower ex_post_plain) \<and>
   process_post ex_lower 30 ex_post_plain [] = []"
proof -
  have h: "ex_reddit ''music'' = Inr ex_subreddit" by (simp add: ex_reddit_def)
  have s: "ex_subreddit ''Beta Bob, Ann recommend'' 20 = Inr [Inr ex_post_strong, Inr ex_post_weak]"
    by (simp add: ex_subreddit_def)
  have c: "search_reddit_for_recommendations ex_stdout ex_lower ex_reddit ''Beta Bob, Ann recommend''
     ''music'' 20 30 = Inr ([post_entry ex_post_strong []], [])" by code_simp
  have a: "\<not> has_post_intent (post_text ex_lower ex_post_plain)" by code_simp
  show ?thesis
    using post_intent_gate[of ex_reddit "''music''" ex_subreddit "''Beta Bob, Ann recommend''" 20
        "[Inr ex_post_strong, Inr ex_post_weak]" ex_stdout ex_lower 30] h s c a
    by simp
qed

subsection \<open>Comments\<close>

text \<open>
  C8, as amended. For every mined submission and every non-negative
  \<^verbatim>\<open>max_comments\<close>, the loop ranges over at most \<^verbatim>\<open>max_comments\<close> comments, and
  the retained comments are those among the comments read (the ones before the first
  error, if any) whose lowered body contains one of \<^verbatim>\<open>recommend\<close>, \<^verbatim>\<open>similar\<close>,
  \<^verbatim>\<open>if you like\<close>, \<^verbatim>\<open>check out\<close>, \<^verbatim>\<open>you might like\<close>, \<^verbatim>\<open>try\<close>, in their order;
  the other comments are discarded. When fetching the comments fails none is retained.
\<close>

theorem comments_examined_and_retained:
  assumes "0 \<le> max_comments"
  shows "(case p_comments post of
            Inl e \<Rightarrow> get_comments lower max_comments post = []
          | Inr listed \<Rightarrow>
              length (py_slice_to max_comments listed) \<le> nat max_comments \<and>
              get_comments lower max_comments post =
                map comment_entry
                  (filter (\<lambda>comment. has_comment_intent (lower (c_body comment)))
                     (before_error (py_slice_to max_comments listed))))"
proof (cases "p_comments post")
  case (Inl e)
  then show ?thesis by (simp add: get_comments_fetch_error)
next
  case (Inr listed)
  have "length (py_slice_to max_comments listed) \<le> nat max_comments"
    using assms by (simp add: py_slice_to_nonneg)
  then show ?thesis
    using get_comments_listed[OF Inr, of lower max_comments] by (simp add: Inr any_comment_keyword)
qed

text \<open>C8 as amended, with a limit of two on the example submissions.\<close>

theorem comments_examined_and_retained_witness:
  "(0::int) \<le> 2 \<and>
   p_comments ex_post_partial =
     Inr [Inr ex_comment_good, Inl (Exception ''timeout''), Inr ex_comment_good] \<and>
   length (py_slice_to 2 [Inr ex_comment_good, Inl (Exception ''timeout''), Inr ex_comment_good])
     \<le> nat 2 \<and>
   get_comments ex_lower 2 ex_post_three =
     [comment_entry ex_comment_good, comment_entry ex_comment_good] \<and>
   get_comments ex_lower 2 ex_post_partial =
     map comment_entry
       (filter (\<lambda>comment. has_comment_intent (ex_lower (c_body comment)))
          (before_error
             (py_slice_to 2 [Inr ex_comment_good, Inl (Exception ''timeout''), Inr ex_comment_good])))"
proof -
  have p: "p_comments ex_post_partial =
     Inr [Inr ex_comment_good, Inl (Exception ''timeout''), Inr ex_comment_good]"
    by (simp add: ex_post_partial_def)
  have t: "get_comments ex_lower 2 ex_post_three =
     [comment_entry ex_comment_good, comment_entry ex_comment_good]"
    by code_simp
  show ?thesis
    using comments_examined_and_retained[where max_comments = 2 and post = ex_post_partial
        and lower = ex_lower] p t by simp
qed

text \<open>
  C8 as stated (at most \<^verbatim>\<open>max_comments\<close> comments are examined, for every value of
  it) fails for a negative limit: the slice then leaves out only the last comments, and
  with \<^verbatim>\<open>max_comments = -1\<close> two of three comments are examined and retained.
\<close>

theorem negative_max_comments_counterexample:
  "length (get_comments ex_lower (- 1) ex_post_three) = 2 \<and>
   \<not> int (length (get_comments ex_lower (- 1) ex_post_three)) \<le> - 1"
proof -
  have "get_comments ex_lower (- 1) ex_post_three =
          [comment_entry ex_comment_good, comment_entry ex_comment_good]"
    by code_simp
  then show ?thesis by simp
qed

text \<open>
  C9, as amended. When the service raises while the comments of a submission are
  fetched, the error is swallowed and the submission has no retained comment. When it
  raises while the comments are gone through, the error is swallowed and the submission
  keeps the comments retained before the failure. In both cases the remaining
  submissions of the query are mined as they would be on their own, and the loop ends
  as it would for them alone.
\<close>

theorem comment_failure_keeps_earlier_comments:
  assumes "(p_comments post = Inl e \<and> readable = []) \<or>
           (\<exists>listed later. p_comments post = Inr listed \<and>
              py_slice_to max_comments listed = map Inr readable @ Inl e # later)"
  shows "get_comments lower max_comments post =
           map comment_entry
             (filter (\<lambda>comment. has_comment_intent (lower (c_body comment))) readable) \<and>
         for_posts lower max_comments (Inr post # rest) recommendations =
           (process_post lower max_comments post recommendations @
              fst (for_posts lower max_comments rest []),
            snd (for_posts lower max_comments rest []))"
proof -
  have kept: "get_comments lower max_comments post =
           map comment_entry
             (filter (\<lambda>comment. has_comment_intent (lower (c_body comment))) readable)"
    using assms
  proof
    assume "p_comments post = Inl e \<and> readable = []"
    then show ?thesis by (simp add: get_comments_fetch_error)
  next
    assume "\<exists>listed later. p_comments post = Inr listed \<and>
              py_slice_to max_comments listed = map Inr readable @ Inl e # later"
    then obtain listed later where l: "p_comments post = Inr listed"
      and s: "py_slice_to max_comments listed = map Inr readable @ Inl e # later" by blast
    have "before_error (py_slice_to max_comments listed) = readable"
      by (simp add: s before_error_append)
    then show ?thesis
      using get_comments_listed[OF l, of lower max_comments] by (simp add: any_comment_keyword)
  qed
  have "fst (for_posts lower max_comments (Inr post # rest) recommendations) =
          process_post lower max_comments post recommendations @
          fst (for_posts lower max_comments rest [])"
    using for_posts_acc[of lower max_comments rest
        "process_post lower max_comments post recommendations"]
    by simp
  moreover have "snd (for_posts lower max_comments (Inr post # rest) recommendations) =
          snd (for_posts lower max_comments rest [])"
    by (simp add: snd_for_posts)
  ultimately have "for_posts lower max_comments (Inr post # rest) recommendations =
           (process_post lower max_comments post recommendations @
              fst (for_posts lower max_comments rest []),
            snd (for_posts lower max_comments rest []))"
    by (simp add: prod_eq_iff)
  with kept show ?thesis by simp
qed

text \<open>
  C9 as amended, on the submission whose second comment cannot be read, followed by
  another submission.
\<close>

theorem comment_failure_keeps_earlier_comments_witness:
  "p_comments ex_post_partial =
     Inr [Inr ex_comment_good, Inl (Exception ''timeout''), Inr ex_comment_good] \<and>
   py_slice_to 30 [Inr ex_comment_good, Inl (Exception ''timeout''), Inr ex_comment_good]
     = map Inr [ex_comment_good] @ Inl (Exception ''timeout'') # [Inr ex_comment_good] \<and>
   get_comments ex_lower 30 ex_post_partial = [comment_entry ex_comment_good] \<and>
   for_posts ex_lower 30 (Inr ex_post_partial # [Inr ex_post_strong]) [] =
     ([post_entry ex_post_partial [comment_entry ex_comment_good], post_entry ex_post_strong []],
      None)"
proof -
  have p: "p_comments ex_post_partial =
     Inr [Inr ex_comment_good, Inl (Exception ''timeout''), Inr ex_comment_good]"
    by (simp add: ex_post_partial_def)
  have s: "py_slice_to 30 [Inr ex_comment_good, Inl (Exception ''timeout''), Inr ex_comment_good]
     = map Inr [ex_comment_good] @ Inl (Exception ''timeout'') # [Inr ex_comment_good]"
    by (simp add: py_slice_to_def)
  have i: "has_comment_intent (ex_lower (c_body ex_comment_good))" by code_simp
  have a: "process_post ex_lower 30 ex_post_partial [] =
             [post_entry ex_post_partial [comment_entry ex_comment_good]]"
    by code_simp
  have b: "for_posts ex_lower 30 [Inr ex_post_strong] [] = ([post_entry ex_post_strong []], None)"
    by code_simp
  have d: "(p_comments ex_post_partial = Inl (Exception ''timeout'') \<and> [ex_comment_good] = []) \<or>
           (\<exists>listed later. p_comments ex_post_partial = Inr listed \<and>
              py_slice_to 30 listed = map Inr [ex_comment_good] @ Inl (Exception ''timeout'') # later)"
    using p s by blast
  show ?thesis
    using comment_failure_keeps_earlier_comments[OF d, of ex_lower "[Inr ex_post_strong]" "[]"]
      p s i a b
    by simp
qed

text \<open>
  C9 as stated (a failure while filtering leaves the submission with zero retained
  comments) fails on that submission: the comment retained before the failure stays.
\<close>

theorem comment_failure_zero_comments_counterexample:
  "p_comments ex_post_partial =
     Inr [Inr ex_comment_good, Inl (Exception ''timeout''), Inr ex_comment_good] \<and>
   get_comments ex_lower 30 ex_post_partial = [comment_entry ex_comment_good] \<and>
   get_comments ex_lower 30 ex_post_partial \<noteq> []"
proof -
  have "get_comments ex_lower 30 ex_post_partial = [comment_entry ex_comment_good]" by code_simp
  then show ?thesis by (simp add: ex_post_partial_def)
qed

subsection \<open>Failures of the search\<close>




text \<open>
  C10, as amended. When looking up the subreddit, which happens before the guarded
  block, does not raise, and standard output takes the line the handler prints, then for
  every query and limits and whatever the service does during the search, the
  iteration over the results and the fetching of comments,
  \<^verbatim>\<open>search_reddit_for_recommendations\<close> raises nothing and returns a list: the entries
  of the submissions reached before the first error, together with the error line if
  there was one.
\<close>

theorem search_returns_list_when_handle_obtained:
  assumes "reddit subreddit_name = Inr subreddit"
    and "\<forall>e. out (error_line e) = None"
  shows "search_reddit_for_recommendations out lower reddit query subreddit_name
           max_posts max_comments =
         Inr (case subreddit query max_posts of
                Inl e \<Rightarrow> ([], [error_line e])
              | Inr search_results \<Rightarrow>
                  (concat (map (\<lambda>post. process_post lower max_comments post [])
                             (before_error search_results)),
                   case first_error search_results of
                     None \<Rightarrow> []
                   | Some e \<Rightarrow> [error_line e]))"
proof (cases "subreddit query max_posts")
  case (Inl e)
  have "out (error_line e) = None" using assms(2) by simp
  then show ?thesis
    using search_call_failed[of reddit subreddit_name subreddit query max_posts e out lower
        max_comments] assms(1) Inl by simp
next
  case (Inr search_results)
  show ?thesis
  proof (cases "first_error search_results")
    case None
    then show ?thesis
      using search_clean[of reddit subreddit_name subreddit query max_posts search_results
          out lower max_comments] assms(1) Inr by simp
  next
    case (Some e)
    have "out (error_line e) = None" using assms(2) by simp
    then show ?thesis
      using search_iteration_failed[of reddit subreddit_name subreddit query max_posts
          search_results e out lower max_comments] assms(1) Inr Some by simp
  qed
qed

text \<open>C10 as amended, on a query whose iteration raises after the first submission.\<close>

theorem search_returns_list_when_handle_obtained_witness:
  "ex_reddit ''music'' = Inr ex_subreddit \<and>
   ex_subreddit ''Alpha Ann recommend'' 20 =
     Inr [Inr ex_post_partial, Inl (Exception ''timeout''), Inr ex_post_strong] \<and>
   search_reddit_for_recommendations ex_stdout ex_lower ex_reddit ''Alpha Ann recommend''
     ''music'' 20 30 =
     Inr (concat (map (\<lambda>post. process_post ex_lower 30 post [])
                    (before_error [Inr ex_post_partial, Inl (Exception ''timeout''),
                                   Inr ex_post_strong])),
          [error_line (Exception ''timeout'')])"
proof -
  have h: "ex_reddit ''music'' = Inr ex_subreddit" by (simp add: ex_reddit_def)
  have s: "ex_subreddit ''Alpha Ann recommend'' 20 =
     Inr [Inr ex_post_partial, Inl (Exception ''timeout''), Inr ex_post_strong]"
    by (simp add: ex_subreddit_def)
  have o: "\<forall>e. ex_stdout (error_line e) = None" by (simp add: ex_stdout_def)
  show ?thesis
    using search_returns_list_when_handle_obtained[of ex_reddit "''music''" ex_subreddit
        ex_stdout ex_lower "''Alpha Ann recommend''" 20 30] h s o
    by simp
qed

text \<open>
  C10 as stated (no error ever reaches the caller) fails when the lookup of the
  subreddit raises, and when the \<^verbatim>\<open>print\<close> of the handler raises: both calls are
  outside the guarded block.
\<close>

theorem handle_lookup_error_counterexample:
  "search_reddit_for_recommendations ex_stdout ex_lower ex_reddit ''Bowie recommend similar''
     ''random'' 20 30 = Inl (Exception ''no redirect'') \<and>
   search_reddit_for_recommendations ex_closed_stdout ex_lower ex_reddit ''Alpha Ann recommend''
     ''music'' 20 30 = Inl (Exception ''I/O operation on closed file'')"
proof -
  have "search_reddit_for_recommendations ex_stdout ex_lower ex_reddit ''Bowie recommend similar''
     ''random'' 20 30 = Inl (Exception ''no redirect'')"
    by (simp add: search_reddit_for_recommendations_def ex_reddit_def)
  moreover have "search_reddit_for_recommendations ex_closed_stdout ex_lower ex_reddit
     ''Alpha Ann recommend'' ''music'' 20 30 = Inl (Exception ''I/O operation on closed file'')"
    by code_simp
  ultimately show ?thesis by simp
qed

subsection \<open>The collected data\<close>

text \<open>
  C5. The \<^verbatim>\<open>all_reddit_data\<close> of every run of \<^verbatim>\<open>get_reddit_recommendations\<close>
  that returns is the lists returned for the queries put end to end: those of the seed
  tracks in their order, then those of the seed artists in their order. Nothing is
  reordered, added or removed. A run returns whenever the subreddit can be looked up
  and standard output takes every line.
\<close>

theorem all_reddit_data_is_concatenation:
  "(reddit subreddit_name = Inr subreddit \<and> (\<forall>text. out text = None) \<longrightarrow>
      (\<exists>r printed.
         get_reddit_recommendations out lower reddit set_order tracks_data subreddit_name
           max_posts max_comments num_top_tracks num_top_artists = Inr (r, printed))) \<and>
   (\<forall>r printed.
      get_reddit_recommendations out lower reddit set_order tracks_data subreddit_name
        max_posts max_comments num_top_tracks num_top_artists = Inr (r, printed) \<longrightarrow>
      top_tracks r = top_tracks_of tracks_data num_top_tracks \<and>
      all_artists r = all_artists_of set_order tracks_data num_top_artists \<and>
      all_reddit_data r =
        concat (map (\<lambda>track. query_results out lower reddit subreddit_name max_posts max_comments
                               (track_query track)) (top_tracks r)) @
        concat (map (\<lambda>artist. query_results out lower reddit subreddit_name max_posts max_comments
                               (artist_query artist)) (all_artists r)))"
proof -
  have "\<exists>r printed.
         get_reddit_recommendations out lower reddit set_order tracks_data subreddit_name
           max_posts max_comments num_top_tracks num_top_artists = Inr (r, printed)"
    if "reddit subreddit_name = Inr subreddit \<and> (\<forall>text. out text = None)"
    using get_reddit_recommendations_returns[of reddit subreddit_name subreddit out] that by blast
  moreover have "top_tracks r = top_tracks_of tracks_data num_top_tracks \<and>
      all_artists r = all_artists_of set_order tracks_data num_top_artists \<and>
      all_reddit_data r =
        concat (map (\<lambda>track. query_results out lower reddit subreddit_name max_posts max_comments
                               (track_query track)) (top_tracks r)) @
        concat (map (\<lambda>artist. query_results out lower reddit subreddit_name max_posts max_comments
                               (artist_query artist)) (all_artists r))"
    if "get_reddit_recommendations out lower reddit set_order tracks_data subreddit_name
          max_posts max_comments num_top_tracks num_top_artists = Inr (r, printed)" for r printed
    using get_reddit_recommendations_returned[OF that] by simp
  ultimately show ?thesis by blast
qed

text \<open>
  C5, on the example playlist with two seed tracks and one seed artist, whose search
  fails.
\<close>

theorem all_reddit_data_is_concatenation_witness:
  "ex_reddit ''music'' = Inr ex_subreddit \<and>
   (\<exists>r printed.
      get_reddit_recommendations ex_stdout ex_lower ex_reddit rev ex_tracks ''music'' 20 30 2 1
        = Inr (r, printed) \<and>
      top_tracks r = [ex_track_b, ex_track_a] \<and>
      all_artists r = [''Cy''] \<and>
      all_reddit_data r =
        [post_entry ex_post_strong [], post_entry ex_post_partial [comment_entry ex_comment_good]] \<and>
      all_reddit_data r =
        concat (map (\<lambda>track. query_results ex_stdout ex_lower ex_reddit ''music'' 20 30
                               (track_query track)) [ex_track_b, ex_track_a]) @
        concat (map (\<lambda>artist. query_results ex_stdout ex_lower ex_reddit ''music'' 20 30
                               (artist_query artist)) [''Cy'']))"
proof -
  have h: "ex_reddit ''music'' = Inr ex_subreddit" by (simp add: ex_reddit_def)
  have o: "\<forall>text. ex_stdout text = None" by (simp add: ex_stdout_def)
  have "\<exists>r printed.
      get_reddit_recommendations ex_stdout ex_lower ex_reddit rev ex_tracks ''music'' 20 30 2 1
        = Inr (r, printed)"
    using all_reddit_data_is_concatenation[of ex_reddit "''music''" ex_subreddit ex_stdout
        ex_lower rev ex_tracks 20 30 2 1] h o by blast
  then obtain r printed where r:
    "get_reddit_recommendations ex_stdout ex_lower ex_reddit rev ex_tracks ''music'' 20 30 2 1
        = Inr (r, printed)"
    by blast
  have t: "top_tracks_of ex_tracks 2 = [ex_track_b, ex_track_a]" by code_simp
  have a: "all_artists_of rev ex_tracks 1 = [''Cy'']" by code_simp
  have q1: "query_results ex_stdout ex_lower ex_reddit ''music'' 20 30 (track_query ex_track_b)
              = [post_entry ex_post_strong []]" by code_simp
  have q2: "query_results ex_stdout ex_lower ex_reddit ''music'' 20 30 (track_query ex_track_a)
              = [post_entry ex_post_partial [comment_entry ex_comment_good]]" by code_simp
  have q3: "query_results ex_stdout ex_lower ex_reddit ''music'' 20 30 (artist_query ''Cy'') = []"
    by code_simp
  show ?thesis
    using all_reddit_data_is_concatenation[of ex_reddit "''music''" ex_subreddit ex_stdout
        ex_lower rev ex_tracks 20 30 2 1] h r t a q1 q2 q3
    by simp
qed

end
